theory Spec2Isabelle
  imports Main "HOL-Library.Sublist"
begin

section \<open>JavaScript strings\<close>

text \<open>
  A JavaScript string is a sequence of UTF-16 code units. Every operation of
  \<^verbatim>\<open>src/uri/uri.ts\<close> works on code units (indices, \<^verbatim>\<open>substring\<close>, character
  classes of regular expressions without the \<^verbatim>\<open>u\<close> flag), so a string is modelled as
  the list of its code units, each a natural number. \<open>lit\<close> turns an ASCII literal
  into such a list.
\<close>

type_synonym code_unit = nat
type_synonym jstring = "code_unit list"

definition cu :: "char \<Rightarrow> code_unit" where
  "cu c = of_char c"

definition lit :: "string \<Rightarrow> jstring" where
  "lit s = map cu s"

text \<open>\<^verbatim>\<open>s.startsWith(p)\<close> and \<^verbatim>\<open>s.endsWith(p)\<close>.\<close>

definition startsWith :: "jstring \<Rightarrow> jstring \<Rightarrow> bool" where
  "startsWith s p = (take (length p) s = p)"

definition endsWith :: "jstring \<Rightarrow> jstring \<Rightarrow> bool" where
  "endsWith s p = (length p \<le> length s \<and> drop (length s - length p) s = p)"

text \<open>
  \<^verbatim>\<open>s.substring(a, b)\<close>: both indices are clamped to \<open>[0, length s]\<close> and swapped
  when \<open>a > b\<close>; \<^verbatim>\<open>s.substring(a)\<close> runs to the end of the string.
\<close>

definition substring :: "jstring \<Rightarrow> int \<Rightarrow> int \<Rightarrow> jstring" where
  "substring s a b =
     (let n = int (length s);
          a' = max 0 (min a n);
          b' = max 0 (min b n);
          lo = min a' b';
          hi = max a' b'
      in take (nat (hi - lo)) (drop (nat lo) s))"

definition substring_from :: "jstring \<Rightarrow> int \<Rightarrow> jstring" where
  "substring_from s a = substring s a (int (length s))"

text \<open>
  \<^verbatim>\<open>s.indexOf(p, from)\<close>: the first index \<open>\<ge> from\<close> at which \<open>p\<close> occurs, or \<open>-1\<close>.
  \<open>indexOf_scan p s i\<close> scans \<open>s\<close>, whose first code unit has index \<open>i\<close>.
\<close>

fun indexOf_scan :: "jstring \<Rightarrow> jstring \<Rightarrow> int \<Rightarrow> int" where
  "indexOf_scan p [] i = (if p = [] then i else - 1)"
| "indexOf_scan p (c # cs) i =
     (if startsWith (c # cs) p then i else indexOf_scan p cs (i + 1))"

definition indexOf_at :: "jstring \<Rightarrow> jstring \<Rightarrow> nat \<Rightarrow> int" where
  "indexOf_at s p k = (let k' = min k (length s) in indexOf_scan p (drop k' s) (int k'))"

definition indexOf :: "jstring \<Rightarrow> jstring \<Rightarrow> int" where
  "indexOf s p = indexOf_at s p 0"

text \<open>\<^verbatim>\<open>s.lastIndexOf(c)\<close> for a single code unit \<open>c\<close>: the last index of \<open>c\<close>, or \<open>-1\<close>.\<close>

definition lastIndexOf :: "jstring \<Rightarrow> code_unit \<Rightarrow> int" where
  "lastIndexOf s c =
     (if c \<in> set s
      then int (length s) - 1 - int (length (takeWhile (\<lambda>x. x \<noteq> c) (rev s)))
      else - 1)"

text \<open>
  \<^verbatim>\<open>s.toLowerCase()\<close> on ASCII: the code only lower-cases a matched scheme, which
  consists of ASCII letters, digits, \<open>.\<close>, \<open>+\<close>, \<open>-\<close> and \<open>:\<close>.
\<close>

definition lower_cu :: "code_unit \<Rightarrow> code_unit" where
  "lower_cu c = (if cu CHR ''A'' \<le> c \<and> c \<le> cu CHR ''Z'' then c + 32 else c)"

definition toLowerCase :: "jstring \<Rightarrow> jstring" where
  "toLowerCase s = map lower_cu s"

text \<open>\<^verbatim>\<open>xs.join(sep)\<close> on an array of strings.\<close>

fun join_with :: "jstring \<Rightarrow> jstring list \<Rightarrow> jstring" where
  "join_with sep [] = []"
| "join_with sep [x] = x"
| "join_with sep (x # y # ys) = x @ sep @ join_with sep (y # ys)"

text \<open>
  Truthiness of an optional string: \<^verbatim>\<open>undefined\<close> and the empty string are falsy.
  \<open>js_or a b\<close> is \<^verbatim>\<open>a || b\<close>.
\<close>

definition truthy :: "jstring option \<Rightarrow> bool" where
  "truthy v = (case v of None \<Rightarrow> False | Some s \<Rightarrow> s \<noteq> [])"

definition js_or :: "jstring option \<Rightarrow> jstring option \<Rightarrow> jstring option" where
  "js_or a b = (if truthy a then a else b)"

text \<open>\<^verbatim>\<open>v || ''\<close> for an optional string.\<close>

definition or_empty :: "jstring option \<Rightarrow> jstring" where
  "or_empty v = (case v of None \<Rightarrow> [] | Some s \<Rightarrow> s)"

section \<open>Character classes of the patterns\<close>

text \<open>
  \<^verbatim>\<open>[a-z]\<close> under the \<^verbatim>\<open>i\<close> flag (no \<^verbatim>\<open>u\<close> flag): the ASCII letters of both cases.
\<close>

definition is_alpha :: "code_unit \<Rightarrow> bool" where
  "is_alpha c =
     ((cu CHR ''a'' \<le> c \<and> c \<le> cu CHR ''z'') \<or> (cu CHR ''A'' \<le> c \<and> c \<le> cu CHR ''Z''))"

text \<open>\<^verbatim>\<open>[a-z0-9\.\+-]\<close> under the \<^verbatim>\<open>i\<close> flag.\<close>

definition is_scheme_char :: "code_unit \<Rightarrow> bool" where
  "is_scheme_char c =
     (is_alpha c \<or> (cu CHR ''0'' \<le> c \<and> c \<le> cu CHR ''9'')
      \<or> c = cu CHR ''.'' \<or> c = cu CHR ''+'' \<or> c = cu CHR ''-'')"

text \<open>
  \<^verbatim>\<open>\s\<close>: the white space and line terminator code units of ECMAScript
  (TAB, LF, VT, FF, CR, SP, NBSP, U+1680, U+2000 to U+200A, U+2028, U+2029, U+202F,
  U+205F, U+3000, U+FEFF).
\<close>

definition is_space :: "code_unit \<Rightarrow> bool" where
  "is_space c =
     ((9 \<le> c \<and> c \<le> 13) \<or> c = 32 \<or> c = 160 \<or> c = 5760 \<or> (8192 \<le> c \<and> c \<le> 8202)
      \<or> c = 8232 \<or> c = 8233 \<or> c = 8239 \<or> c = 8287 \<or> c = 12288 \<or> c = 65279)"

text \<open>
  \<open>_ROOM_EXCLUDE_PATTERN\<close>, the class \<^verbatim>\<open>[\:\?#\[\]@!$&'()*+,;=></"]\<close>.
\<close>

definition room_excluded :: "code_unit \<Rightarrow> bool" where
  "room_excluded c = (c \<in> set (lit '':?#[]@!$&()*+,;=></'') \<or> c = 39 \<or> c = 34)"

text \<open>\<^verbatim>\<open>[^/?#]\<close> of \<open>_URI_AUTHORITY_PATTERN\<close> and \<^verbatim>\<open>[^?#]\<close> of \<open>_URI_PATH_PATTERN\<close>.\<close>

definition is_authority_char :: "code_unit \<Rightarrow> bool" where
  "is_authority_char c = (c \<noteq> cu CHR ''/'' \<and> c \<noteq> cu CHR ''?'' \<and> c \<noteq> cu CHR ''#'')"

definition is_path_char :: "code_unit \<Rightarrow> bool" where
  "is_path_char c = (c \<noteq> cu CHR ''?'' \<and> c \<noteq> cu CHR ''#'')"

section \<open>The regular expressions, as matchers\<close>

text \<open>
  Each matcher returns what the code reads off \<^verbatim>\<open>regex.exec(str)\<close>: the capture
  group \<^verbatim>\<open>match[1]\<close> and \<^verbatim>\<open>str.substring(regex.lastIndex)\<close>; \<open>None\<close> is a \<^verbatim>\<open>null\<close>
  match. All patterns are anchored with \<^verbatim>\<open>^\<close> and executed once on a fresh
  \<^verbatim>\<open>RegExp\<close>, so \<^verbatim>\<open>lastIndex\<close> is the length of the match.

  \<open>URI_PROTOCOL_PATTERN\<close> is \<^verbatim>\<open>^([a-z][a-z0-9\.\+-]*:)\<close>. The class does not contain
  \<open>:\<close>, so the greedy star stops exactly at the first code unit outside the class,
  and the match succeeds iff that code unit is \<open>:\<close>.
\<close>

definition protocol_match :: "jstring \<Rightarrow> (jstring \<times> jstring) option" where
  "protocol_match s =
     (case s of
        [] \<Rightarrow> None
      | c # cs \<Rightarrow>
          if is_alpha c
          then (case dropWhile is_scheme_char cs of
                  [] \<Rightarrow> None
                | d # rest \<Rightarrow>
                    if d = cu CHR '':''
                    then Some (c # takeWhile is_scheme_char cs @ [d], rest)
                    else None)
          else None)"

text \<open>
  \<^verbatim>\<open>new RegExp(`${URI_PROTOCOL_PATTERN}+`, 'gi')\<close>, that is
  \<^verbatim>\<open>^([a-z][a-z0-9\.\+-]*:)+\<close>: the group is repeated greedily, and \<^verbatim>\<open>match[1]\<close>
  holds the capture of its last iteration. Each iteration matches in one way
  only, so the greedy repetition takes every scheme it can.
\<close>

function protocols_match :: "jstring \<Rightarrow> (jstring \<times> jstring) option" where
  "protocols_match s =
     (case protocol_match s of
        None \<Rightarrow> None
      | Some (p, r) \<Rightarrow>
          (case protocols_match r of
             None \<Rightarrow> Some (p, r)
           | Some q \<Rightarrow> Some q))"
  by pat_completeness auto
termination
proof (relation "measure length")
  show "wf (measure length)" by simp
next
  fix s :: jstring and x2 :: "jstring \<times> jstring" and p r :: jstring
  assume m: "protocol_match s = Some x2" and x: "(p, r) = x2"
  from m x obtain c cs d where s: "s = c # cs" and d: "dropWhile is_scheme_char cs = d # r"
    by (auto simp: protocol_match_def split: list.splits if_splits)
  have "length (dropWhile is_scheme_char cs) \<le> length cs"
    by (rule length_dropWhile_le)
  with d have "length r < length s"
    by (simp add: s)
  then show "(r, s) \<in> measure length" by simp
qed

declare protocols_match.simps [simp del]

text \<open>\<^verbatim>\<open>^(//[^/?#]+)\<close>: \<open>//\<close> and a non-empty run; the result holds the run.\<close>

definition authority_match :: "jstring \<Rightarrow> (jstring \<times> jstring) option" where
  "authority_match s =
     (if startsWith s (lit ''//'') \<and> takeWhile is_authority_char (drop 2 s) \<noteq> []
      then Some (lit ''//'' @ takeWhile is_authority_char (drop 2 s),
                 dropWhile is_authority_char (drop 2 s))
      else None)"

text \<open>\<^verbatim>\<open>^([^?#]*)\<close>: matches every string, possibly with an empty capture.\<close>

definition path_match :: "jstring \<Rightarrow> (jstring \<times> jstring) option" where
  "path_match s = Some (takeWhile is_path_char s, dropWhile is_path_char s)"

section \<open>The functions of the module\<close>

text \<open>
  \<open>_fixRoom\<close> (line 35): a falsy room (\<^verbatim>\<open>undefined\<close> or empty) is returned as it
  is; otherwise every excluded code unit is removed.
\<close>

definition fixRoom :: "jstring option \<Rightarrow> jstring option" where
  "fixRoom room =
     (if truthy room
      then map_option (filter (\<lambda>c. \<not> room_excluded c)) room
      else room)"

text \<open>\<open>_fixURIStringScheme\<close> (lines 50 to 76).\<close>

definition fixURIStringScheme :: "jstring \<Rightarrow> jstring" where
  "fixURIStringScheme uri =
     (case protocols_match uri of
        None \<Rightarrow> uri
      | Some (m, rest) \<Rightarrow>
          (let protocol0 = toLowerCase m;
               protocol = (if protocol0 \<noteq> lit ''http:'' \<and> protocol0 \<noteq> lit ''https:''
                           then lit ''https:'' else protocol0)
           in if startsWith rest (lit ''//'') then protocol @ rest else rest))"

text \<open>\<open>getLocationContextRoot\<close> (lines 86 to 93).\<close>

definition getLocationContextRoot :: "jstring \<Rightarrow> jstring" where
  "getLocationContextRoot pathname =
     (let contextRootEndIndex = lastIndexOf pathname (cu CHR ''/'')
      in if contextRootEndIndex = - 1
         then lit ''/''
         else substring pathname 0 (contextRootEndIndex + 1))"

text \<open>
  The type \<open>Uri\<close> (lines 119 to 128). The field \<open>toString\<close> holds the same function,
  \<open>_standardURIToString\<close>, in every record, so it is not stored.
\<close>

record uri =
  hash :: "jstring option"
  host :: "jstring option"
  hostname :: "jstring option"
  pathname :: jstring
  port :: "jstring option"
  protocol :: "jstring option"
  search :: "jstring option"

text \<open>
  \<open>parseStandardURIString\<close> (lines 163 to 252), one definition per commented
  section of the source; each takes the record built so far and the rest of the
  string, and returns both.
\<close>

definition parse_protocol :: "uri \<Rightarrow> jstring \<Rightarrow> uri \<times> jstring" where
  "parse_protocol obj str =
     (case protocol_match str of
        Some (m, rest) \<Rightarrow> (obj\<lparr>protocol := Some (toLowerCase m)\<rparr>, rest)
      | None \<Rightarrow> (obj, str))"

definition parse_authority :: "uri \<Rightarrow> jstring \<Rightarrow> uri \<times> jstring" where
  "parse_authority obj str =
     (case authority_match str of
        Some (m, rest) \<Rightarrow>
          (let authority0 = substring_from m 2;
               userinfoEndIndex = indexOf authority0 (lit ''@'');
               authority1 = (if userinfoEndIndex \<noteq> - 1
                             then substring_from authority0 (userinfoEndIndex + 1)
                             else authority0);
               portBeginIndex = lastIndexOf authority1 (cu CHR '':'')
           in if portBeginIndex \<noteq> - 1
              then (obj\<lparr>host := Some authority1,
                        port := Some (substring_from authority1 (portBeginIndex + 1)),
                        hostname := Some (substring authority1 0 portBeginIndex)\<rparr>, rest)
              else (obj\<lparr>host := Some authority1, hostname := Some authority1\<rparr>, rest))
      | None \<Rightarrow> (obj, str))"

definition parse_pathname :: "uri \<Rightarrow> jstring \<Rightarrow> uri \<times> jstring" where
  "parse_pathname obj str =
     (let (pathname0, rest) =
            (case path_match str of
               Some (m, rest) \<Rightarrow> (Some m, rest)
             | None \<Rightarrow> (None, str));
          pathname1 =
            (if truthy pathname0
             then (case pathname0 of
                     Some p \<Rightarrow> if startsWith p (lit ''/'') then p else lit ''/'' @ p
                   | None \<Rightarrow> lit ''/'')
             else lit ''/'')
      in (obj\<lparr>pathname := pathname1\<rparr>, rest))"

definition parse_query :: "uri \<Rightarrow> jstring \<Rightarrow> uri \<times> jstring" where
  "parse_query obj str =
     (if startsWith str (lit ''?'')
      then (let hashBeginIndex0 = indexOf_at str (lit ''#'') 1;
                hashBeginIndex = (if hashBeginIndex0 = - 1 then int (length str)
                                  else hashBeginIndex0)
            in (obj\<lparr>search := Some (substring str 0 hashBeginIndex)\<rparr>,
                substring_from str hashBeginIndex))
      else (obj\<lparr>search := Some []\<rparr>, str))"

definition parse_fragment :: "uri \<Rightarrow> jstring \<Rightarrow> uri" where
  "parse_fragment obj str =
     obj\<lparr>hash := Some (if startsWith str (lit ''#'') then str else [])\<rparr>"

text \<open>
  The object literal of line 166: only \<open>toString\<close> is set. \<open>pathname\<close> is assigned on
  every path before the record is returned; its initial value here is never read.
\<close>

definition new_uri :: uri where
  "new_uri = \<lparr>hash = None, host = None, hostname = None, pathname = [],
              port = None, protocol = None, search = None\<rparr>"

definition parseStandardURIString :: "jstring \<Rightarrow> uri" where
  "parseStandardURIString str0 =
     (let str1 = filter (\<lambda>c. \<not> is_space c) str0;
          (obj1, str2) = parse_protocol new_uri str1;
          (obj2, str3) = parse_authority obj1 str2;
          (obj3, str4) = parse_pathname obj2 str3;
          (obj4, str5) = parse_query obj3 str4
      in parse_fragment obj4 str5)"

text \<open>
  The type \<open>UriExtended\<close> (lines 254 to 258) and \<open>parseURIString\<close> (lines 267 to 303).
  The argument is \<open>None\<close> when \<^verbatim>\<open>typeof uri !== 'string'\<close>; the result \<open>None\<close> is
  \<^verbatim>\<open>undefined\<close>.
\<close>

record uri_extended = uri +
  contextRoot :: "jstring option"
  room :: "jstring option"

definition parseURIString :: "jstring option \<Rightarrow> uri_extended option" where
  "parseURIString uri =
     (case uri of
        None \<Rightarrow> None
      | Some u \<Rightarrow>
          (let obj = parseStandardURIString (fixURIStringScheme u);
               contextRoot' = getLocationContextRoot (pathname obj);
               pathname' = pathname obj;
               contextRootEndIndex = lastIndexOf pathname' (cu CHR ''/'');
               room0 = (let seg = substring_from pathname' (contextRootEndIndex + 1)
                        in if seg \<noteq> [] then Some seg else None);
               (room1, pathname1) =
                 (if truthy room0
                  then (let fixedRoom = fixRoom room0
                        in if fixedRoom \<noteq> room0
                           then (fixedRoom,
                                 substring pathname' 0 (contextRootEndIndex + 1)
                                 @ or_empty fixedRoom)
                           else (room0, pathname'))
                  else (room0, pathname'))
           in Some \<lparr>hash = hash obj, host = host obj, hostname = hostname obj,
                     pathname = pathname1, port = port obj, protocol = protocol obj,
                     search = search obj,
                     contextRoot = Some contextRoot', room = room1\<rparr>))"

section \<open>Stringification\<close>

datatype error = TypeError | InvalidURL

text \<open>
  The five properties that \<open>_standardURIToString\<close> destructures from
  \<^verbatim>\<open>(thiz || this) as any\<close>; a property that the object does not have is \<open>None\<close>.
\<close>

record receiver =
  r_hash :: "jstring option"
  r_host :: "jstring option"
  r_pathname :: "jstring option"
  r_protocol :: "jstring option"
  r_search :: "jstring option"

definition as_receiver :: "uri \<Rightarrow> receiver" where
  "as_receiver u =
     \<lparr>r_hash = hash u, r_host = host u, r_pathname = Some (pathname u),
      r_protocol = protocol u, r_search = search u\<rparr>"

text \<open>
  \<open>_standardURIToString\<close> (lines 139 to 154). It is declared as an arrow function
  (\<^verbatim>\<open>const _standardURIToString = ( thiz: unknown ): string => { ... }\<close>), and an
  arrow function has no \<^verbatim>\<open>this\<close> of its own: the \<^verbatim>\<open>this\<close> of line 141 is the
  \<^verbatim>\<open>this\<close> of the enclosing scope, the top level of the module, whatever object the
  function is called on. The first argument \<open>this\<close> of the model is that
  module-level value, which the module system of the host decides; the second
  is the parameter \<open>thiz\<close>. Destructuring \<^verbatim>\<open>undefined\<close> throws a \<^verbatim>\<open>TypeError\<close>.
\<close>

definition standardURIToString :: "receiver option \<Rightarrow> receiver option \<Rightarrow> error + jstring" where
  "standardURIToString this thiz =
     (case (if thiz \<noteq> None then thiz else this) of
        None \<Rightarrow> Inl TypeError
      | Some r \<Rightarrow>
          Inr ((if truthy (r_protocol r) then or_empty (r_protocol r) else [])
               @ (if truthy (r_host r) then lit ''//'' @ or_empty (r_host r) else [])
               @ (if truthy (r_pathname r) then or_empty (r_pathname r) else lit ''/'')
               @ (if truthy (r_search r) then or_empty (r_search r) else [])
               @ (if truthy (r_hash r) then or_empty (r_hash r) else [])))"

text \<open>
  The two standard values of the module-level \<^verbatim>\<open>this\<close>. In an ECMAScript module
  (the file has \<^verbatim>\<open>export\<close> declarations) it is \<^verbatim>\<open>undefined\<close>. When the file is
  compiled to a CommonJS module it is the \<^verbatim>\<open>exports\<close> object, whose properties are
  the six exported names (\<open>URI_PROTOCOL_PATTERN\<close>, \<open>getLocationContextRoot\<close>,
  \<open>parseStandardURIString\<close>, \<open>parseURIString\<close>, \<open>urlObjectToString\<close>, \<open>toURLString\<close>):
  it has none of the five properties read.
\<close>

definition es_module_this :: "receiver option" where
  "es_module_this = None"

definition commonjs_this :: "receiver option" where
  "commonjs_this =
     Some \<lparr>r_hash = None, r_host = None, r_pathname = None, r_protocol = None,
           r_search = None\<rparr>"

text \<open>
  The method call \<^verbatim>\<open>obj.toString()\<close> on a record returned by
  \<open>parseStandardURIString\<close>, as in line 443: the call passes no argument, so
  \<open>thiz\<close> is \<^verbatim>\<open>undefined\<close>, and the record \<open>obj\<close> the method is called on is not
  what the arrow function reads.
\<close>

definition toString_method :: "receiver option \<Rightarrow> uri \<Rightarrow> error + jstring" where
  "toString_method this obj = standardURIToString this None"

section \<open>From a property bag to a URL string\<close>

text \<open>
  \<open>_objectToURLParamsArray\<close> (lines 104 to 117). The object is given by the
  (key, value) pairs that \<^verbatim>\<open>for ... in\<close> enumerates, in order. The parameter \<open>enc\<close>
  stands for \<^verbatim>\<open>encodeURIComponent(JSON.stringify(v))\<close> of the host, \<open>None\<close> when
  it throws. The second component of the result is what \<^verbatim>\<open>console.warn\<close> received.
\<close>

datatype diagnostic = Error_encoding jstring

fun objectToURLParamsArray ::
  "('v \<Rightarrow> jstring option) \<Rightarrow> (jstring \<times> 'v) list \<Rightarrow> jstring list \<times> diagnostic list" where
  "objectToURLParamsArray enc [] = ([], [])"
| "objectToURLParamsArray enc ((key, v) # kvs) =
     (let (params, warned) = objectToURLParamsArray enc kvs
      in case enc v of
           Some e \<Rightarrow> ((key @ lit ''='' @ e) # params, warned)
         | None \<Rightarrow> (params, Error_encoding key # warned))"

text \<open>
  The type \<open>UrlProperties\<close> (lines 305 to 317), with the nine override objects that
  lines 424 to 426 read by computed name. An absent property is \<open>None\<close>; an
  override object is the list of its enumerable (key, value) pairs.
\<close>

record 'v url_properties =
  o_serverURL :: "jstring option"
  o_room :: "jstring option"
  o_url :: "jstring option"
  o_protocol :: "jstring option"
  o_scheme :: "jstring option"
  o_domain :: "jstring option"
  o_host :: "jstring option"
  o_hostname :: "jstring option"
  o_appLinkScheme :: "jstring option"
  o_roomName :: "jstring option"
  o_jwt :: "jstring option"
  o_configOverwrite :: "(jstring \<times> 'v) list option"
  o_config :: "(jstring \<times> 'v) list option"
  o_configOverride :: "(jstring \<times> 'v) list option"
  o_interfaceConfigOverwrite :: "(jstring \<times> 'v) list option"
  o_interfaceConfig :: "(jstring \<times> 'v) list option"
  o_interfaceConfigOverride :: "(jstring \<times> 'v) list option"
  o_devicesOverwrite :: "(jstring \<times> 'v) list option"
  o_devices :: "(jstring \<times> 'v) list option"
  o_devicesOverride :: "(jstring \<times> 'v) list option"

text \<open>
  Lines 331 to 339. \<open>url_join room serverURL\<close> stands for
  \<^verbatim>\<open>new URL(room, serverURL).toString()\<close> of the host, \<open>None\<close> when the constructor
  throws.
\<close>

definition base_string ::
  "(jstring \<Rightarrow> jstring \<Rightarrow> jstring option) \<Rightarrow> 'v url_properties \<Rightarrow> error + jstring" where
  "base_string url_join bag =
     (if truthy (o_serverURL bag) \<and> truthy (o_room bag)
      then (case url_join (or_empty (o_room bag)) (or_empty (o_serverURL bag)) of
              None \<Rightarrow> Inl InvalidURL
            | Some tmp \<Rightarrow> Inr tmp)
      else if truthy (o_room bag)
      then Inr (or_empty (o_room bag))
      else Inr (or_empty (js_or (o_url bag) (Some []))))"

text \<open>Lines 343 to 353, the protocol.\<close>

definition apply_protocol :: "'v url_properties \<Rightarrow> uri \<Rightarrow> uri" where
  "apply_protocol bag url =
     (if \<not> truthy (protocol url)
      then (let protocol0 = js_or (o_protocol bag) (o_scheme bag)
            in if truthy protocol0
               then url\<lparr>protocol :=
                      Some (if endsWith (or_empty protocol0) (lit '':'')
                            then or_empty protocol0
                            else or_empty protocol0 @ lit '':'')\<rparr>
               else url)
      else url)"

text \<open>
  Lines 355 to 384, authority and pathname: the result is the record and the
  local variable \<open>pathname\<close>.
\<close>

definition apply_authority :: "'v url_properties \<Rightarrow> uri \<Rightarrow> uri \<times> jstring" where
  "apply_authority bag url =
     (let pathname0 = pathname url
      in if \<not> truthy (host url)
         then (let domain = js_or (js_or (o_domain bag) (o_host bag)) (o_hostname bag)
               in if truthy domain \<and> truthy (o_appLinkScheme bag)
                  then (let parsed = parseStandardURIString
                                       (fixURIStringScheme
                                          (or_empty (o_appLinkScheme bag) @ lit ''//''
                                           @ or_empty domain));
                            url1 = (if truthy (host parsed)
                                    then url\<lparr>host := host parsed,
                                             hostname := hostname parsed,
                                             port := port parsed\<rparr>
                                    else url);
                            pathname1 = (if pathname0 = lit ''/'' \<and> pathname parsed \<noteq> lit ''/''
                                         then pathname parsed else pathname0)
                        in (url1, pathname1))
                  else (url, pathname0))
         else (url, pathname0))"

text \<open>Lines 386 to 398, the room.\<close>

definition apply_room :: "'v url_properties \<Rightarrow> uri \<Rightarrow> jstring \<Rightarrow> uri" where
  "apply_room bag url pathname0 =
     (let room0 = js_or (o_roomName bag) (o_room bag);
          pathname1 =
            (if truthy room0
                \<and> (endsWith (pathname url) (lit ''/'')
                    \<or> \<not> endsWith (pathname url) (lit ''/'' @ or_empty room0))
             then (if endsWith pathname0 (lit ''/'') then pathname0 else pathname0 @ lit ''/'')
                  @ or_empty room0
             else pathname0)
      in url\<lparr>pathname := pathname1\<rparr>)"

text \<open>
  Lines 400 to 415, the query. \<^verbatim>\<open>search.indexOf\<close> on an \<^verbatim>\<open>undefined\<close> search would
  throw a \<^verbatim>\<open>TypeError\<close>.
\<close>

definition apply_jwt :: "'v url_properties \<Rightarrow> uri \<Rightarrow> error + uri" where
  "apply_jwt bag url =
     (if truthy (o_jwt bag)
      then (case search url of
              None \<Rightarrow> Inl TypeError
            | Some search0 \<Rightarrow>
                if indexOf search0 (lit ''?jwt='') = - 1 \<and> indexOf search0 (lit ''&jwt='') = - 1
                then (let search1 = (if startsWith search0 (lit ''?'') then search0
                                     else lit ''?'' @ search0);
                          search2 = (if length search1 = 1 then search1
                                     else search1 @ lit ''&'');
                          search3 = search2 @ lit ''jwt='' @ or_empty (o_jwt bag)
                      in Inr (url\<lparr>search := Some search3\<rparr>))
                else Inr url)
      else Inr url)"

text \<open>
  Lines 417 to 441, the fragment. \<open>overrides\<close> lists, for the three prefixes in
  the order of line 421, the value of
  \<^verbatim>\<open>o[prefix + 'Overwrite'] || o[prefix] || o[prefix + 'Override']\<close>; an object is
  truthy, whatever its keys. \<open>fragment_loop\<close> is the loop: its state is the local
  variable \<open>hash\<close>, and \<^verbatim>\<open>hash.length\<close> on an \<^verbatim>\<open>undefined\<close> hash would throw.
\<close>

definition first_defined :: "'a option \<Rightarrow> 'a option \<Rightarrow> 'a option \<Rightarrow> 'a option" where
  "first_defined a b c = (if a \<noteq> None then a else if b \<noteq> None then b else c)"

definition overrides :: "'v url_properties \<Rightarrow> (jstring \<times> (jstring \<times> 'v) list option) list" where
  "overrides bag =
     [(lit ''config'',
         first_defined (o_configOverwrite bag) (o_config bag) (o_configOverride bag)),
      (lit ''interfaceConfig'',
         first_defined (o_interfaceConfigOverwrite bag) (o_interfaceConfig bag)
           (o_interfaceConfigOverride bag)),
      (lit ''devices'',
         first_defined (o_devicesOverwrite bag) (o_devices bag) (o_devicesOverride bag))]"

fun fragment_loop ::
  "('v \<Rightarrow> jstring option) \<Rightarrow> (jstring \<times> (jstring \<times> 'v) list option) list
   \<Rightarrow> jstring option \<Rightarrow> diagnostic list \<times> (error + jstring option)" where
  "fragment_loop enc [] hash0 = ([], Inr hash0)"
| "fragment_loop enc ((urlPrefix, obj) # later) hash0 =
     (let (urlParamsArray, warned) =
            objectToURLParamsArray enc (case obj of None \<Rightarrow> [] | Some kvs \<Rightarrow> kvs)
      in if urlParamsArray \<noteq> []
         then (let urlParamsString =
                     urlPrefix @ lit ''.''
                     @ join_with (lit ''&'' @ urlPrefix @ lit ''.'') urlParamsArray
               in case hash0 of
                    None \<Rightarrow> (warned, Inl TypeError)
                  | Some h \<Rightarrow>
                      (let (warned', res) =
                             fragment_loop enc later
                               (Some (if h \<noteq> [] then h @ lit ''&'' @ urlParamsString
                                      else lit ''#'' @ urlParamsString))
                       in (warned @ warned', res)))
         else (let (warned', res) = fragment_loop enc later hash0
               in (warned @ warned', res)))"

text \<open>
  \<open>working_record\<close> is \<open>urlObjectToString\<close> up to line 441: the record \<open>url\<close> as it
  is when \<^verbatim>\<open>url.toString()\<close> is called, with the diagnostics emitted so far.
\<close>

definition working_record ::
  "(jstring \<Rightarrow> jstring \<Rightarrow> jstring option) \<Rightarrow> ('v \<Rightarrow> jstring option) \<Rightarrow> 'v url_properties
   \<Rightarrow> diagnostic list \<times> (error + uri)" where
  "working_record url_join enc bag =
     (case base_string url_join bag of
        Inl e \<Rightarrow> ([], Inl e)
      | Inr tmp \<Rightarrow>
          (let url0 = parseStandardURIString (fixURIStringScheme tmp);
               url1 = apply_protocol bag url0;
               (url2, pathname0) = apply_authority bag url1;
               url3 = apply_room bag url2 pathname0
           in case apply_jwt bag url3 of
                Inl e \<Rightarrow> ([], Inl e)
              | Inr url4 \<Rightarrow>
                  (case fragment_loop enc (overrides bag) (hash url4) of
                     (warned, Inl e) \<Rightarrow> (warned, Inl e)
                   | (warned, Inr hash1) \<Rightarrow> (warned, Inr (url4\<lparr>hash := hash1\<rparr>)))))"

text \<open>
  \<open>urlObjectToString\<close> (lines 328 to 444). The result \<open>Inr None\<close> is \<^verbatim>\<open>undefined\<close>,
  \<open>Inl e\<close> a thrown error.
\<close>

definition urlObjectToString ::
  "receiver option \<Rightarrow> (jstring \<Rightarrow> jstring \<Rightarrow> jstring option) \<Rightarrow> ('v \<Rightarrow> jstring option)
   \<Rightarrow> 'v url_properties \<Rightarrow> diagnostic list \<times> (error + jstring option)" where
  "urlObjectToString this url_join enc bag =
     (case working_record url_join enc bag of
        (warned, Inl e) \<Rightarrow> (warned, Inl e)
      | (warned, Inr url) \<Rightarrow>
          (case toString_method this url of
             Inl e \<Rightarrow> (warned, Inl e)
           | Inr s \<Rightarrow> (warned, Inr (if s \<noteq> [] then Some s else None))))"

text \<open>The property bag with no property set.\<close>

definition no_properties :: "'v url_properties" where
  "no_properties =
     \<lparr>o_serverURL = None, o_room = None, o_url = None, o_protocol = None, o_scheme = None,
      o_domain = None, o_host = None, o_hostname = None, o_appLinkScheme = None,
      o_roomName = None, o_jwt = None,
      o_configOverwrite = None, o_config = None, o_configOverride = None,
      o_interfaceConfigOverwrite = None, o_interfaceConfig = None,
      o_interfaceConfigOverride = None,
      o_devicesOverwrite = None, o_devices = None, o_devicesOverride = None\<rparr>"

section \<open>Notions of the specification\<close>

text \<open>
  A scheme prefix in the words of the specification: a letter, followed by
  letters, digits, \<open>.\<close>, \<open>+\<close> or \<open>-\<close>, followed by \<open>:\<close>. A string has a leading scheme
  when one of its prefixes is a scheme prefix.
\<close>

definition scheme_token :: "jstring \<Rightarrow> bool" where
  "scheme_token p =
     (case p of
        [] \<Rightarrow> False
      | c # cs \<Rightarrow> is_alpha c \<and> cs \<noteq> [] \<and> last cs = cu CHR '':''
                 \<and> list_all is_scheme_char (butlast cs))"

definition has_leading_scheme :: "jstring \<Rightarrow> bool" where
  "has_leading_scheme s = list_ex scheme_token (prefixes s)"

text \<open>
  The scheme that the specification says is put back: the retained scheme,
  replaced with \<open>https:\<close> unless it is exactly \<open>http:\<close> or \<open>https:\<close>.
  \<open>lowered_scheme\<close> is the same rule applied to the lower-cased scheme.
\<close>

definition claimed_scheme :: "jstring \<Rightarrow> jstring" where
  "claimed_scheme p = (if p = lit ''http:'' \<or> p = lit ''https:'' then p else lit ''https:'')"

definition lowered_scheme :: "jstring \<Rightarrow> jstring" where
  "lowered_scheme p = claimed_scheme (toLowerCase p)"

text \<open>
  The final path segment of a meeting URI, before it is sanitized: the value of
  \<^verbatim>\<open>pathname.substring(contextRootEndIndex + 1)\<close> in line 286.
\<close>

definition room_segment :: "jstring \<Rightarrow> jstring" where
  "room_segment uri =
     (let pathname' = pathname (parseStandardURIString (fixURIStringScheme uri))
      in substring_from pathname' (lastIndexOf pathname' (cu CHR ''/'') + 1))"

section \<open>Evaluation on concrete inputs\<close>

lemmas str_ev = lit_def cu_def startsWith_def endsWith_def substring_def substring_from_def
  indexOf_at_def indexOf_def lastIndexOf_def lower_cu_def toLowerCase_def truthy_def js_or_def
  or_empty_def Let_def

lemmas class_ev = is_alpha_def is_scheme_char_def is_space_def room_excluded_def
  is_authority_char_def is_path_char_def

lemmas parse_ev = protocol_match_def protocols_match.simps authority_match_def path_match_def
  fixRoom_def fixURIStringScheme_def getLocationContextRoot_def parse_protocol_def
  parse_authority_def parse_pathname_def parse_query_def parse_fragment_def new_uri_def
  parseStandardURIString_def parseURIString_def

lemmas spec_ev = scheme_token_def has_leading_scheme_def claimed_scheme_def lowered_scheme_def
  room_segment_def

lemmas url_ev = base_string_def apply_protocol_def apply_authority_def apply_room_def
  apply_jwt_def first_defined_def overrides_def working_record_def urlObjectToString_def
  no_properties_def standardURIToString_def toString_method_def es_module_this_def
  commonjs_this_def as_receiver_def

section \<open>The parser\<close>

lemma parse_query_pathname: "pathname (fst (parse_query obj str)) = pathname obj"
  by (simp add: parse_query_def Let_def)

lemma parse_fragment_pathname: "pathname (parse_fragment obj str) = pathname obj"
  by (simp add: parse_fragment_def)

lemma parse_pathname_slash: "startsWith (pathname (fst (parse_pathname obj str))) (lit ''/'')"
  by (auto simp: parse_pathname_def path_match_def Let_def startsWith_def lit_def truthy_def
           split: option.splits)

lemma parseStandardURIString_pathname:
  "pathname (parseStandardURIString str) =
     pathname (fst (parse_pathname
        (fst (parse_authority (fst (parse_protocol new_uri (filter (\<lambda>c. \<not> is_space c) str)))
                 (snd (parse_protocol new_uri (filter (\<lambda>c. \<not> is_space c) str)))))
        (snd (parse_authority (fst (parse_protocol new_uri (filter (\<lambda>c. \<not> is_space c) str)))
                 (snd (parse_protocol new_uri (filter (\<lambda>c. \<not> is_space c) str)))))))"
  by (simp add: parseStandardURIString_def Let_def split_beta parse_fragment_pathname
        parse_query_pathname)

lemma pathname_slash: "startsWith (pathname (parseStandardURIString str)) (lit ''/'')"
  unfolding parseStandardURIString_pathname by (rule parse_pathname_slash)

text \<open>
  C1. For every input string, \<open>parseStandardURIString\<close> returns a record, and the
  \<open>pathname\<close> of that record starts with \<open>/\<close>. No statement of lines 163 to 252 can
  throw (each capture group that is read is mandatory in its pattern), so the
  function is modelled with the result type \<open>uri\<close>, without an error value: it is
  total.
\<close>

theorem parseStandardURIString_pathname_slash:
  "startsWith (pathname (parseStandardURIString str)) (lit ''/'')"
  by (rule pathname_slash)

lemma indexOf_scan_range: "0 \<le> i \<Longrightarrow> indexOf_scan p s i = - 1 \<or> i \<le> indexOf_scan p s i"
proof (induction s arbitrary: i)
  case Nil
  then show ?case by simp
next
  case (Cons c cs)
  from Cons.IH[of "i + 1"] Cons.prems show ?case by auto
qed

lemma substring_keeps_first: "1 \<le> k \<Longrightarrow> startsWith (substring (c # t) 0 k) [c]"
  by (auto simp: substring_def startsWith_def Let_def min_def max_def take_Cons')

lemma parse_query_search:
  "\<exists>s. search (fst (parse_query obj str)) = Some s \<and> (s = [] \<or> startsWith s (lit ''?''))"
proof (cases "startsWith str (lit ''?'')")
  case False
  then show ?thesis by (simp add: parse_query_def)
next
  case True
  then obtain t where str: "str = cu CHR ''?'' # t"
    by (cases str) (auto simp: startsWith_def lit_def)
  define k where "k = indexOf_at str (lit ''#'') 1"
  have k: "k = - 1 \<or> 1 \<le> k"
    using indexOf_scan_range[of 1 "lit ''#''" t] by (simp add: k_def indexOf_at_def str)
  have q: "lit ''?'' = [cu CHR ''?'']" by (simp add: lit_def)
  have "startsWith (substring str 0 (if k = - 1 then int (length str) else k)) (lit ''?'')"
    unfolding str q using k by (intro substring_keeps_first) auto
  moreover have "search (fst (parse_query obj str))
      = Some (substring str 0 (if k = - 1 then int (length str) else k))"
    using True unfolding parse_query_def k_def Let_def by simp
  ultimately show ?thesis by simp
qed

lemma parseStandardURIString_search:
  "\<exists>s. search (parseStandardURIString str) = Some s \<and> (s = [] \<or> startsWith s (lit ''?''))"
proof -
  have "\<And>obj s. search (parse_fragment obj s) = search obj"
    by (simp add: parse_fragment_def)
  then show ?thesis
    using parse_query_search
    by (simp add: parseStandardURIString_def Let_def split_beta)
qed

lemma parseStandardURIString_hash: "\<exists>h. hash (parseStandardURIString str) = Some h"
  by (simp add: parseStandardURIString_def Let_def split_beta parse_fragment_def)

section \<open>The scheme fixer\<close>

lemma protocol_match_split:
  "protocol_match s = Some (p, r) \<Longrightarrow> s = p @ r"
  apply (auto simp: protocol_match_def split: list.splits if_splits)
  by (metis takeWhile_dropWhile_id)

lemma protocols_match_None: "protocols_match s = None \<longleftrightarrow> protocol_match s = None"
  by (subst protocols_match.simps) (auto split: option.splits)

lemma protocols_match_maximal:
  "protocols_match s = Some (p, r) \<Longrightarrow> protocol_match r = None"
proof (induction s arbitrary: p r rule: protocols_match.induct)
  case (1 s)
  from "1.prems" obtain p1 r1 where m: "protocol_match s = Some (p1, r1)"
    by (subst (asm) protocols_match.simps) (auto split: option.splits)
  show ?case
  proof (cases "protocols_match r1")
    case None
    with m "1.prems" have "r = r1"
      by (subst (asm) protocols_match.simps) simp
    with None show ?thesis by (simp add: protocols_match_None)
  next
    case (Some q)
    with m "1.prems" have "protocols_match r1 = Some (p, r)"
      by (subst (asm) protocols_match.simps) simp
    with "1.IH"[OF m refl] show ?thesis by simp
  qed
qed


lemma protocols_match_split:
  "protocols_match s = Some (p, r) \<Longrightarrow> \<exists>q. s = q @ p @ r"
proof (induction s arbitrary: p r rule: protocols_match.induct)
  case (1 s)
  from "1.prems" obtain p1 r1 where m: "protocol_match s = Some (p1, r1)"
    by (subst (asm) protocols_match.simps) (auto split: option.splits)
  then have s: "s = p1 @ r1" by (rule protocol_match_split)
  show ?case
  proof (cases "protocols_match r1")
    case None
    with m "1.prems" have "p = p1" "r = r1"
      by (subst (asm) protocols_match.simps, simp)+
    with s have "s = [] @ p @ r" by simp
    then show ?thesis by blast
  next
    case (Some q)
    with m "1.prems" have "protocols_match r1 = Some (p, r)"
      by (subst (asm) protocols_match.simps) simp
    with "1.IH"[OF m refl] obtain q' where "r1 = q' @ p @ r" by blast
    with s have "s = (p1 @ q') @ p @ r" by simp
    then show ?thesis by blast
  qed
qed

lemma protocol_match_slash: "startsWith r (lit ''//'') \<Longrightarrow> protocol_match r = None"
  by (cases r) (auto simp: protocol_match_def startsWith_def lit_def cu_def is_alpha_def)

lemma protocol_match_https: "protocol_match (lit ''https:'' @ r) = Some (lit ''https:'', r)"
  by (simp add: protocol_match_def lit_def cu_def is_alpha_def is_scheme_char_def)

lemma protocol_match_http: "protocol_match (lit ''http:'' @ r) = Some (lit ''http:'', r)"
  by (simp add: protocol_match_def lit_def cu_def is_alpha_def is_scheme_char_def)

lemma fix_wellknown:
  assumes "w = lit ''http:'' \<or> w = lit ''https:''" and "startsWith r (lit ''//'')"
  shows "fixURIStringScheme (w @ r) = w @ r"
proof -
  from assms(2) have n: "protocols_match r = None"
    by (simp add: protocols_match_None protocol_match_slash)
  from assms(1) have m: "protocol_match (w @ r) = Some (w, r)"
    using protocol_match_http protocol_match_https by blast
  have "protocols_match (w @ r) = Some (w, r)"
    by (subst protocols_match.simps) (simp add: m n)
  moreover from assms(1) have "toLowerCase w = w"
    by (auto simp: toLowerCase_def lower_cu_def lit_def cu_def)
  ultimately show ?thesis
    using assms by (auto simp: fixURIStringScheme_def Let_def)
qed

text \<open>
  C7. Applying \<open>_fixURIStringScheme\<close> twice gives the same result as applying it
  once, for every string.
\<close>

theorem fixURIStringScheme_idempotent:
  "fixURIStringScheme (fixURIStringScheme s) = fixURIStringScheme s"
proof (cases "protocols_match s")
  case None
  then show ?thesis by (simp add: fixURIStringScheme_def)
next
  case (Some a)
  obtain p r where a: "a = (p, r)" by (cases a)
  show ?thesis
  proof (cases "startsWith r (lit ''//'')")
    case True
    define w where "w = (if toLowerCase p \<noteq> lit ''http:'' \<and> toLowerCase p \<noteq> lit ''https:''
                         then lit ''https:'' else toLowerCase p)"
    have w: "w = lit ''http:'' \<or> w = lit ''https:''" by (auto simp: w_def)
    from Some a True have "fixURIStringScheme s = w @ r"
      by (simp add: fixURIStringScheme_def Let_def w_def)
    with fix_wellknown[OF w True] show ?thesis by simp
  next
    case False
    with Some a have f: "fixURIStringScheme s = r"
      by (simp add: fixURIStringScheme_def Let_def)
    from Some a have "protocols_match r = None"
      by (simp add: protocols_match_None protocols_match_maximal)
    then have "fixURIStringScheme r = r" by (simp add: fixURIStringScheme_def)
    with f show ?thesis by simp
  qed
qed

lemma colon_not_scheme_char: "\<not> is_scheme_char (cu CHR '':'')"
  by (simp add: is_scheme_char_def is_alpha_def cu_def)

lemma protocol_match_token:
  assumes "scheme_token p"
  shows "protocol_match (p @ t) = Some (p, t)"
proof -
  from assms obtain c cs where p: "p = c # cs" and c: "is_alpha c" and ne: "cs \<noteq> []"
    and l: "last cs = cu CHR '':''" and a: "list_all is_scheme_char (butlast cs)"
    by (auto simp: scheme_token_def split: list.splits)
  define run where "run = butlast cs"
  from ne l have cs: "cs = run @ [cu CHR '':'']"
    unfolding run_def by (metis append_butlast_last_id)
  from a have all: "\<And>x. x \<in> set run \<Longrightarrow> is_scheme_char x"
    by (simp add: run_def list_all_iff)
  have tw: "takeWhile is_scheme_char (run @ cu CHR '':'' # t) = run"
    using all by (simp add: takeWhile_append2 colon_not_scheme_char)
  have dw: "dropWhile is_scheme_char (run @ cu CHR '':'' # t) = cu CHR '':'' # t"
    using all by (simp add: dropWhile_append2 colon_not_scheme_char)
  show ?thesis
    by (simp add: protocol_match_def p c cs tw dw)
qed

lemma protocol_match_is_token:
  assumes "protocol_match s = Some (p, r)"
  shows "scheme_token p"
proof -
  from assms obtain c cs where "s = c # cs" and c: "is_alpha c"
    and p: "p = c # takeWhile is_scheme_char cs @ [cu CHR '':'']"
    by (auto simp: protocol_match_def split: list.splits if_splits)
  have "list_all is_scheme_char (takeWhile is_scheme_char cs)"
    by (auto simp: list_all_iff dest: set_takeWhileD)
  with c p show ?thesis by (simp add: scheme_token_def)
qed

lemma has_leading_scheme_iff: "has_leading_scheme s \<longleftrightarrow> protocol_match s \<noteq> None"
proof
  assume "has_leading_scheme s"
  then obtain p where "prefix p s" and t: "scheme_token p"
    by (auto simp: has_leading_scheme_def list_ex_iff in_set_prefixes)
  then obtain r where "s = p @ r" by (auto simp: prefix_def)
  with protocol_match_token[OF t] show "protocol_match s \<noteq> None" by simp
next
  assume "protocol_match s \<noteq> None"
  then obtain p r where m: "protocol_match s = Some (p, r)" by auto
  then have "prefix p s" by (auto dest: protocol_match_split)
  with protocol_match_is_token[OF m] show "has_leading_scheme s"
    by (auto simp: has_leading_scheme_def list_ex_iff in_set_prefixes)
qed

lemma no_leading_scheme_iff: "\<not> has_leading_scheme s \<longleftrightarrow> protocol_match s = None"
  using has_leading_scheme_iff[of s] by blast

lemma protocols_match_chain:
  assumes "ps \<noteq> []" and "list_all scheme_token ps" and "protocol_match r = None"
  shows "protocols_match (concat ps @ r) = Some (last ps, r)"
  using assms
proof (induction ps)
  case Nil
  then show ?case by simp
next
  case (Cons p ps)
  from Cons.prems have t: "scheme_token p" by simp
  have m: "protocol_match (concat (p # ps) @ r) = Some (p, concat ps @ r)"
    using protocol_match_token[OF t] by simp
  show ?case
  proof (cases "ps = []")
    case True
    with Cons.prems have "protocols_match (concat ps @ r) = None"
      by (simp add: protocols_match_None)
    with m True show ?thesis
      by (subst protocols_match.simps) simp
  next
    case False
    with Cons have "protocols_match (concat ps @ r) = Some (last ps, r)" by simp
    with m False show ?thesis
      by (subst protocols_match.simps) simp
  qed
qed

lemma protocols_match_decompose:
  "protocols_match s = Some (p, r) \<Longrightarrow>
     \<exists>ps. ps \<noteq> [] \<and> list_all scheme_token ps \<and> last ps = p \<and> s = concat ps @ r"
proof (induction s arbitrary: p r rule: protocols_match.induct)
  case (1 s)
  from "1.prems" obtain p1 r1 where m: "protocol_match s = Some (p1, r1)"
    by (subst (asm) protocols_match.simps) (auto split: option.splits)
  then have s: "s = p1 @ r1" by (rule protocol_match_split)
  from m have t: "scheme_token p1" by (rule protocol_match_is_token)
  show ?case
  proof (cases "protocols_match r1")
    case None
    with m "1.prems" have "p = p1" "r = r1"
      by (subst (asm) protocols_match.simps, simp)+
    with s t have "[p1] \<noteq> [] \<and> list_all scheme_token [p1] \<and> last [p1] = p \<and> s = concat [p1] @ r"
      by simp
    then show ?thesis by blast
  next
    case (Some q)
    with m "1.prems" have "protocols_match r1 = Some (p, r)"
      by (subst (asm) protocols_match.simps) simp
    with "1.IH"[OF m refl] obtain ps where ps: "ps \<noteq> []" "list_all scheme_token ps"
      "last ps = p" "r1 = concat ps @ r" by blast
    with s t have "p1 # ps \<noteq> [] \<and> list_all scheme_token (p1 # ps) \<and> last (p1 # ps) = p
        \<and> s = concat (p1 # ps) @ r" by simp
    then show ?thesis by blast
  qed
qed

text \<open>
  C2, as amended. A string that begins with a chain \<open>ps\<close> of scheme prefixes, followed
  by a remainder \<open>r\<close> without a leading scheme, is fixed as follows: all of the chain
  is stripped; if \<open>r\<close> starts with \<open>//\<close>, the last scheme of the chain is put back in
  lower case, replaced with \<open>https:\<close> unless that lower-cased scheme is \<open>http:\<close> or
  \<open>https:\<close>; otherwise no scheme is put back. A string without a leading scheme is
  returned unchanged. Every string with a leading scheme is such a chain followed
  by such a remainder.
\<close>

theorem fixURIStringScheme_keeps_last_scheme:
  "(ps \<noteq> [] \<and> list_all scheme_token ps \<and> \<not> has_leading_scheme r \<longrightarrow>
      fixURIStringScheme (concat ps @ r) =
        (if startsWith r (lit ''//'') then lowered_scheme (last ps) @ r else r))
   \<and> (\<not> has_leading_scheme s \<longrightarrow> fixURIStringScheme s = s)
   \<and> (has_leading_scheme s \<longrightarrow>
        (\<exists>qs t. qs \<noteq> [] \<and> list_all scheme_token qs \<and> \<not> has_leading_scheme t
                \<and> s = concat qs @ t))"
proof (intro conjI impI)
  assume "ps \<noteq> [] \<and> list_all scheme_token ps \<and> \<not> has_leading_scheme r"
  then have "ps \<noteq> []" "list_all scheme_token ps" "protocol_match r = None"
    by (simp_all add: no_leading_scheme_iff)
  then have "protocols_match (concat ps @ r) = Some (last ps, r)"
    by (rule protocols_match_chain)
  then show "fixURIStringScheme (concat ps @ r) =
        (if startsWith r (lit ''//'') then lowered_scheme (last ps) @ r else r)"
    by (auto simp: fixURIStringScheme_def Let_def lowered_scheme_def claimed_scheme_def)
next
  assume "\<not> has_leading_scheme s"
  then have "protocols_match s = None"
    by (simp add: no_leading_scheme_iff protocols_match_None)
  then show "fixURIStringScheme s = s"
    by (simp add: fixURIStringScheme_def)
next
  assume "has_leading_scheme s"
  then obtain a where "protocols_match s = Some a"
    using protocols_match_None[of s] by (auto simp: has_leading_scheme_iff)
  then obtain p r where m: "protocols_match s = Some (p, r)" by (cases a) auto
  from protocols_match_decompose[OF m] protocols_match_maximal[OF m]
  show "\<exists>qs t. qs \<noteq> [] \<and> list_all scheme_token qs \<and> \<not> has_leading_scheme t \<and> s = concat qs @ t"
    by (auto simp: no_leading_scheme_iff)
qed

theorem fixURIStringScheme_keeps_last_scheme_witness:
  "fixURIStringScheme (lit ''org.jitsi.meet:HTTP://a/b'') = lit ''http://a/b''
   \<and> fixURIStringScheme (lit ''room'') = lit ''room''
   \<and> (\<exists>qs t. qs \<noteq> [] \<and> list_all scheme_token qs \<and> \<not> has_leading_scheme t
                \<and> lit ''a:b'' = concat qs @ t)"
proof -
  have h1: "[lit ''org.jitsi.meet:'', lit ''HTTP:''] \<noteq> []
      \<and> list_all scheme_token [lit ''org.jitsi.meet:'', lit ''HTTP:'']
      \<and> \<not> has_leading_scheme (lit ''//a/b'')"
    by (simp add: str_ev class_ev spec_ev)
  have h2: "\<not> has_leading_scheme (lit ''room'')" by (simp add: str_ev class_ev spec_ev)
  have h3: "has_leading_scheme (lit ''a:b'')" by (simp add: str_ev class_ev spec_ev)
  have e: "concat [lit ''org.jitsi.meet:'', lit ''HTTP:''] @ lit ''//a/b'' = lit ''org.jitsi.meet:HTTP://a/b''"
    by (simp add: lit_def)
  have l: "lowered_scheme (last [lit ''org.jitsi.meet:'', lit ''HTTP:'']) @ lit ''//a/b'' = lit ''http://a/b''"
    by (simp add: str_ev class_ev spec_ev)
  have s: "startsWith (lit ''//a/b'') (lit ''//'')" by (simp add: str_ev class_ev spec_ev)
  from fixURIStringScheme_keeps_last_scheme[of "[lit ''org.jitsi.meet:'', lit ''HTTP:'']" "lit ''//a/b''" "lit ''room''"] h1 h2 e l s
  have a: "fixURIStringScheme (lit ''org.jitsi.meet:HTTP://a/b'') = lit ''http://a/b''"
    and b: "fixURIStringScheme (lit ''room'') = lit ''room''" by simp_all
  from fixURIStringScheme_keeps_last_scheme[of "[]" "[]" "lit ''a:b''"] h3
  have c: "\<exists>qs t. qs \<noteq> [] \<and> list_all scheme_token qs \<and> \<not> has_leading_scheme t
                \<and> lit ''a:b'' = concat qs @ t" by blast
  from a b c show ?thesis by blast
qed

text \<open>
  C2, as stated, fails on an upper-case scheme: \<open>HTTP:\<close> is not exactly \<open>http:\<close>, so
  the claim puts \<open>https:\<close> back, where the code puts \<open>http:\<close> back.
\<close>

theorem fixURIStringScheme_upper_case_scheme:
  "scheme_token (lit ''HTTP:'') \<and> \<not> has_leading_scheme (lit ''//a'')
   \<and> fixURIStringScheme (concat [lit ''HTTP:''] @ lit ''//a'')
       \<noteq> claimed_scheme (last [lit ''HTTP:'']) @ lit ''//a''"
  by (simp add: str_ev class_ev spec_ev parse_ev)

section \<open>The meeting URI parser\<close>

lemma lastIndexOf_found:
  assumes "c \<in> set s"
  shows "0 \<le> lastIndexOf s c \<and> lastIndexOf s c < int (length s)"
proof -
  have "length (takeWhile (\<lambda>x. x \<noteq> c) (rev s)) < length (rev s)"
  proof (rule ccontr)
    assume "\<not> ?thesis"
    then have "length (takeWhile (\<lambda>x. x \<noteq> c) (rev s)) = length (rev s)"
      using length_takeWhile_le[of "\<lambda>x. x \<noteq> c" "rev s"] by simp
    then have "takeWhile (\<lambda>x. x \<noteq> c) (rev s) = rev s"
      using takeWhile_dropWhile_id[of "\<lambda>x. x \<noteq> c" "rev s"]
      by (metis append_eq_conv_conj take_all order_refl)
    then have "\<forall>x \<in> set (rev s). x \<noteq> c"
      by (simp add: takeWhile_eq_all_conv)
    with assms show False by auto
  qed
  with assms show ?thesis by (simp add: lastIndexOf_def)
qed

lemma lastIndexOf_absent: "lastIndexOf s c = - 1 \<longleftrightarrow> c \<notin> set s"
  using lastIndexOf_found[of c s] by (auto simp: lastIndexOf_def)

lemma lastIndexOf_split:
  assumes "c \<in> set s"
  shows "\<exists>a b. s = a @ c # b \<and> c \<notin> set b \<and> lastIndexOf s c = int (length a)"
proof -
  define b' where "b' = takeWhile (\<lambda>x. x \<noteq> c) (rev s)"
  define d where "d = dropWhile (\<lambda>x. x \<noteq> c) (rev s)"
  have r: "rev s = b' @ d" by (simp add: b'_def d_def)
  from assms have "d \<noteq> []" by (auto simp: d_def dropWhile_eq_Nil_conv)
  moreover have "d \<noteq> [] \<Longrightarrow> hd d = c"
    using hd_dropWhile[of "\<lambda>x. x \<noteq> c" "rev s"] by (simp add: d_def)
  ultimately obtain a' where d: "d = c # a'" by (cases d) auto
  from r d have s: "s = rev a' @ c # rev b'"
    by (metis rev_append rev.simps(2) rev_rev_ident append.assoc append_Cons append_Nil)
  have nb: "c \<notin> set (rev b')"
    by (auto simp: b'_def dest: set_takeWhileD)
  have "length s = length a' + 1 + length b'" using s by simp
  with assms have "lastIndexOf s c = int (length (rev a'))"
    by (simp add: lastIndexOf_def b'_def[symmetric])
  with s nb show ?thesis by blast
qed

lemma pathname_has_slash: "cu CHR ''/'' \<in> set (pathname (parseStandardURIString str))"
proof -
  from pathname_slash[of str] obtain t where "pathname (parseStandardURIString str) = cu CHR ''/'' # t"
    by (cases "pathname (parseStandardURIString str)") (auto simp: startsWith_def lit_def)
  then show ?thesis by simp
qed

lemma parseURIString_changed:
  assumes "fixRoom (Some (room_segment uri)) \<noteq> Some (room_segment uri)"
  shows "\<exists>obj cr r. parseURIString (Some uri) = Some obj \<and> contextRoot obj = Some cr
           \<and> room obj = Some r \<and> r = filter (\<lambda>c. \<not> room_excluded c) (room_segment uri)
           \<and> pathname obj = cr @ r"
proof -
  define p where "p = pathname (parseStandardURIString (fixURIStringScheme uri))"
  define i where "i = lastIndexOf p (cu CHR ''/'')"
  have seg: "room_segment uri = substring_from p (i + 1)"
    by (simp add: room_segment_def p_def i_def Let_def)
  have i: "i \<noteq> - 1"
    using lastIndexOf_found[OF pathname_has_slash, of "fixURIStringScheme uri"]
    by (simp add: i_def p_def)
  from assms have ne: "room_segment uri \<noteq> []"
    by (auto simp: fixRoom_def truthy_def)
  with assms have fx: "fixRoom (Some (room_segment uri)) = Some (filter (\<lambda>c. \<not> room_excluded c) (room_segment uri))"
    by (simp add: fixRoom_def truthy_def)
  show ?thesis
    using assms ne fx i seg
    by (simp add: parseURIString_def Let_def getLocationContextRoot_def p_def[symmetric]
         i_def[symmetric] truthy_def or_empty_def)
qed

text \<open>
  C4. Whenever sanitizing the final path segment changes it, the \<open>pathname\<close> of the
  record returned by \<open>parseURIString\<close> is its \<open>contextRoot\<close> followed by its \<open>room\<close>,
  the sanitized segment. For \<^verbatim>\<open>https://meet.example.com/My:Room!\<close> the room is
  \<open>MyRoom\<close> and the pathname \<open>/MyRoom\<close>.
\<close>

theorem parseURIString_pathname_follows_room:
  "(fixRoom (Some (room_segment uri)) \<noteq> Some (room_segment uri) \<longrightarrow>
      (\<exists>obj cr r. parseURIString (Some uri) = Some obj \<and> contextRoot obj = Some cr
           \<and> room obj = Some r \<and> r = filter (\<lambda>c. \<not> room_excluded c) (room_segment uri)
           \<and> pathname obj = cr @ r))
   \<and> (\<exists>obj. parseURIString (Some (lit ''https://meet.example.com/My:Room!'')) = Some obj
          \<and> room obj = Some (lit ''MyRoom'') \<and> pathname obj = lit ''/MyRoom'')"
proof (intro conjI impI)
  assume "fixRoom (Some (room_segment uri)) \<noteq> Some (room_segment uri)"
  then show "\<exists>obj cr r. parseURIString (Some uri) = Some obj \<and> contextRoot obj = Some cr
           \<and> room obj = Some r \<and> r = filter (\<lambda>c. \<not> room_excluded c) (room_segment uri)
           \<and> pathname obj = cr @ r"
    by (rule parseURIString_changed)
next
  show "\<exists>obj. parseURIString (Some (lit ''https://meet.example.com/My:Room!'')) = Some obj
          \<and> room obj = Some (lit ''MyRoom'') \<and> pathname obj = lit ''/MyRoom''"
    by (simp add: str_ev class_ev parse_ev)
qed

theorem parseURIString_pathname_follows_room_witness:
  "fixRoom (Some (room_segment (lit ''org.jitsi.meet://a/x/R(1)'')))
     \<noteq> Some (room_segment (lit ''org.jitsi.meet://a/x/R(1)''))
   \<and> (\<exists>obj cr r. parseURIString (Some (lit ''org.jitsi.meet://a/x/R(1)'')) = Some obj
           \<and> contextRoot obj = Some cr \<and> room obj = Some r
           \<and> r = filter (\<lambda>c. \<not> room_excluded c) (room_segment (lit ''org.jitsi.meet://a/x/R(1)''))
           \<and> pathname obj = cr @ r)"
proof -
  have h: "fixRoom (Some (room_segment (lit ''org.jitsi.meet://a/x/R(1)'')))
     \<noteq> Some (room_segment (lit ''org.jitsi.meet://a/x/R(1)''))"
    by (simp add: str_ev class_ev parse_ev spec_ev)
  with parseURIString_pathname_follows_room[of "lit ''org.jitsi.meet://a/x/R(1)''"]
  show ?thesis by blast
qed

lemma parseURIString_room:
  "\<exists>obj. parseURIString (Some uri) = Some obj
     \<and> room obj = (if room_segment uri = [] then None
                   else Some (filter (\<lambda>c. \<not> room_excluded c) (room_segment uri)))"
proof (cases "room_segment uri = []")
  case True
  then show ?thesis
    by (simp add: parseURIString_def room_segment_def Let_def truthy_def)
next
  case False
  then show ?thesis
    by (auto simp: parseURIString_def room_segment_def Let_def truthy_def fixRoom_def)
qed

text \<open>
  C3, evaluated where the final segment is not empty and consists of excluded
  characters only: the \<open>room\<close> of the record is the empty string, not \<^verbatim>\<open>undefined\<close>
  (which is \<open>None\<close>). Line 286 maps an empty segment to \<^verbatim>\<open>undefined\<close>; line 292
  assigns the sanitized value without that step.
\<close>

theorem parseURIString_room_sanitized_to_empty:
  "\<exists>obj. parseURIString (Some (lit ''https://meet.example.com/!!'')) = Some obj
     \<and> room_segment (lit ''https://meet.example.com/!!'') = lit ''!!''
     \<and> room obj = Some [] \<and> room obj \<noteq> None \<and> pathname obj = lit ''/''"
  by (simp add: str_ev class_ev parse_ev spec_ev)

section \<open>Stringification of a parsed record\<close>

text \<open>
  C6, evaluated at \<^verbatim>\<open>https://meet.example.com/foo/bar?x=1#hash\<close>, a string with a
  well-known scheme, authority, path, query and fragment. The method call
  \<^verbatim>\<open>parseStandardURIString(s).toString()\<close> does not give \<open>s\<close> back: in an ECMAScript
  module it throws a \<^verbatim>\<open>TypeError\<close>, and under CommonJS it returns \<open>/\<close>. Only the call
  that passes the record as the argument \<open>thiz\<close> reconstructs the string.
\<close>

theorem toString_method_does_not_read_record:
  "toString_method es_module_this
       (parseStandardURIString (lit ''https://meet.example.com/foo/bar?x=1#hash''))
     = Inl TypeError
   \<and> toString_method commonjs_this
       (parseStandardURIString (lit ''https://meet.example.com/foo/bar?x=1#hash''))
     = Inr (lit ''/'')
   \<and> standardURIToString this
       (Some (as_receiver (parseStandardURIString (lit ''https://meet.example.com/foo/bar?x=1#hash''))))
     = Inr (lit ''https://meet.example.com/foo/bar?x=1#hash'')"
  by (simp add: str_ev class_ev parse_ev url_ev)

section \<open>The property bag\<close>

lemma apply_protocol_keeps:
  "search (apply_protocol bag url) = search url" "hash (apply_protocol bag url) = hash url"
  "pathname (apply_protocol bag url) = pathname url"
  by (simp_all add: apply_protocol_def Let_def)

lemma apply_authority_keeps:
  "search (fst (apply_authority bag url)) = search url"
  "hash (fst (apply_authority bag url)) = hash url"
  "pathname (fst (apply_authority bag url)) = pathname url"
  by (simp_all add: apply_authority_def Let_def)

lemma apply_room_keeps:
  "search (apply_room bag url p) = search url" "hash (apply_room bag url p) = hash url"
  by (simp_all add: apply_room_def Let_def)

lemma fragment_loop_returns:
  "\<exists>ws h'. fragment_loop enc xs (Some h) = (ws, Inr (Some h'))"
proof (induction xs arbitrary: h)
  case Nil
  then show ?case by simp
next
  case (Cons x xs)
  obtain urlPrefix obj where x: "x = (urlPrefix, obj)" by (cases x)
  obtain ps ws where o: "objectToURLParamsArray enc (case obj of None \<Rightarrow> [] | Some kvs \<Rightarrow> kvs) = (ps, ws)"
    by (cases "objectToURLParamsArray enc (case obj of None \<Rightarrow> [] | Some kvs \<Rightarrow> kvs)")
  show ?case
  proof (cases "ps = []")
    case True
    from Cons.IH[of h] obtain ws' h' where "fragment_loop enc xs (Some h) = (ws', Inr (Some h'))"
      by blast
    with True o x show ?thesis by simp
  next
    case False
    define h1 where "h1 = (if h \<noteq> [] then h @ lit ''&'' @ (urlPrefix @ lit ''.'' @ join_with (lit ''&'' @ urlPrefix @ lit ''.'') ps)
                                      else lit ''#'' @ (urlPrefix @ lit ''.'' @ join_with (lit ''&'' @ urlPrefix @ lit ''.'') ps))"
    from Cons.IH[of h1] obtain ws' h' where "fragment_loop enc xs (Some h1) = (ws', Inr (Some h'))"
      by blast
    with False o x show ?thesis by (simp add: Let_def h1_def)
  qed
qed

lemma apply_jwt_search:
  assumes "search url = Some s" and "s = [] \<or> startsWith s (lit ''?'')"
  shows "\<exists>url'. apply_jwt bag url = Inr url' \<and> hash url' = hash url \<and> pathname url' = pathname url
     \<and> search url' =
        Some (if truthy (o_jwt bag) \<and> indexOf s (lit ''?jwt='') = - 1 \<and> indexOf s (lit ''&jwt='') = - 1
              then (if s = [] \<or> s = lit ''?'' then lit ''?'' else s @ lit ''&'')
                   @ lit ''jwt='' @ or_empty (o_jwt bag)
              else s)"
proof (cases "s = []")
  case True
  with assms show ?thesis
    by (simp add: apply_jwt_def Let_def startsWith_def lit_def)
next
  case False
  with assms obtain t where s: "s = cu CHR ''?'' # t"
    by (cases s) (auto simp: startsWith_def lit_def)
  with assms show ?thesis
    by (cases t) (simp_all add: apply_jwt_def Let_def startsWith_def lit_def)
qed

lemma working_record_search:
  assumes "base_string url_join bag = Inr tmp"
  shows "\<exists>ws url s. working_record url_join enc bag = (ws, Inr url)
     \<and> search (parseStandardURIString (fixURIStringScheme tmp)) = Some s
     \<and> search url =
        Some (if truthy (o_jwt bag) \<and> indexOf s (lit ''?jwt='') = - 1 \<and> indexOf s (lit ''&jwt='') = - 1
              then (if s = [] \<or> s = lit ''?'' then lit ''?'' else s @ lit ''&'')
                   @ lit ''jwt='' @ or_empty (o_jwt bag)
              else s)"
proof -
  define url0 where "url0 = parseStandardURIString (fixURIStringScheme tmp)"
  define url2 where "url2 = fst (apply_authority bag (apply_protocol bag url0))"
  define p0 where "p0 = snd (apply_authority bag (apply_protocol bag url0))"
  define url3 where "url3 = apply_room bag url2 p0"
  obtain s where s: "search url0 = Some s" "s = [] \<or> startsWith s (lit ''?'')"
    using parseStandardURIString_search[of "fixURIStringScheme tmp"] by (auto simp: url0_def)
  obtain h where h: "hash url0 = Some h"
    using parseStandardURIString_hash[of "fixURIStringScheme tmp"] by (auto simp: url0_def)
  have s3: "search url3 = Some s" and h3: "hash url3 = Some h"
    by (simp_all add: url3_def url2_def apply_room_keeps apply_authority_keeps apply_protocol_keeps s h)
  from apply_jwt_search[OF s3 s(2), of bag] obtain url4 where
    j: "apply_jwt bag url3 = Inr url4" and h4: "hash url4 = hash url3"
    and s4: "search url4 = Some (if truthy (o_jwt bag) \<and> indexOf s (lit ''?jwt='') = - 1 \<and> indexOf s (lit ''&jwt='') = - 1
              then (if s = [] \<or> s = lit ''?'' then lit ''?'' else s @ lit ''&'')
                   @ lit ''jwt='' @ or_empty (o_jwt bag)
              else s)" by blast
  from fragment_loop_returns[of enc "overrides bag" h] obtain ws h' where
    f: "fragment_loop enc (overrides bag) (Some h) = (ws, Inr (Some h'))" by blast
  have "working_record url_join enc bag = (ws, Inr (url4\<lparr>hash := Some h'\<rparr>))"
    using assms j f h3 h4
    by (simp add: working_record_def Let_def split_beta url0_def[symmetric] url2_def[symmetric]
          p0_def[symmetric] url3_def[symmetric])
  with s4 s(1) show ?thesis by (simp add: url0_def)
qed

lemma indexOf_scan_absent:
  "0 \<le> i \<Longrightarrow> indexOf_scan p s i = - 1 \<longleftrightarrow> \<not> (\<exists>a b. s = a @ p @ b)"
proof (induction s arbitrary: i)
  case Nil
  then show ?case by auto
next
  case (Cons c cs)
  show ?case
  proof (cases "startsWith (c # cs) p")
    case True
    then have "c # cs = [] @ p @ drop (length p) (c # cs)"
      unfolding startsWith_def by (metis append_Nil append_take_drop_id)
    then have "\<exists>a b. c # cs = a @ p @ b" by blast
    with True Cons.prems show ?thesis by simp
  next
    case False
    have "(\<exists>a b. c # cs = a @ p @ b) \<longleftrightarrow> (\<exists>a b. cs = a @ p @ b)"
    proof
      assume "\<exists>a b. c # cs = a @ p @ b"
      then obtain a b where ab: "c # cs = a @ p @ b" by blast
      show "\<exists>a b. cs = a @ p @ b"
      proof (cases a)
        case Nil
        with ab have "startsWith (c # cs) p" by (simp add: startsWith_def)
        with False show ?thesis by simp
      next
        case (Cons x a')
        with ab have "cs = a' @ p @ b" by simp
        then show ?thesis by blast
      qed
    next
      assume "\<exists>a b. cs = a @ p @ b"
      then obtain a b where "cs = a @ p @ b" by blast
      then have "c # cs = (c # a) @ p @ b" by simp
      then show "\<exists>a b. c # cs = a @ p @ b" by blast
    qed
    with False Cons.IH[of "i + 1"] Cons.prems show ?thesis by simp
  qed
qed

lemma indexOf_absent: "indexOf s p = - 1 \<longleftrightarrow> \<not> (\<exists>a b. s = a @ p @ b)"
  using indexOf_scan_absent[of 0 p s] by (simp add: indexOf_def indexOf_at_def)

text \<open>
  The query step, on the working record (the record \<open>url\<close> as it is when line 443
  is reached). Whenever the base string is obtained (the URL join does not throw),
  the working record is obtained as well, and its \<open>search\<close> is computed from the
  search \<open>s\<close> of the parsed base string: if \<open>jwt\<close> is truthy and \<open>s\<close> contains neither
  \<open>?jwt=\<close> nor \<open>&jwt=\<close>, it is \<open>?jwt=<value>\<close> when \<open>s\<close> has no parameter (\<open>s\<close> is empty
  or \<open>?\<close>) and \<open>s&jwt=<value>\<close> otherwise, the value being appended as it is; in
  every other case it is \<open>s\<close>, unchanged. (\<open>indexOf_absent\<close> above: \<open>indexOf s p = - 1\<close>
  says that \<open>p\<close> does not occur in \<open>s\<close>.)
\<close>

lemma working_record_jwt:
  "(base_string url_join bag = Inr tmp \<longrightarrow>
      (\<exists>ws url s. working_record url_join enc bag = (ws, Inr url)
         \<and> search (parseStandardURIString (fixURIStringScheme tmp)) = Some s
         \<and> search url =
             Some (if truthy (o_jwt bag) \<and> indexOf s (lit ''?jwt='') = - 1
                        \<and> indexOf s (lit ''&jwt='') = - 1
                   then (if s = [] \<or> s = lit ''?'' then lit ''?'' else s @ lit ''&'')
                        @ lit ''jwt='' @ or_empty (o_jwt bag)
                   else s)))
   \<and> (\<exists>url. working_record url_join enc
               (no_properties\<lparr>o_room := Some (lit ''r''), o_jwt := Some (lit ''abc'')\<rparr>)
             = ([], Inr url)
          \<and> endsWith (pathname url) (lit ''/r'') \<and> search url = Some (lit ''?jwt=abc''))"
proof (intro conjI impI)
  assume "base_string url_join bag = Inr tmp"
  then show "\<exists>ws url s. working_record url_join enc bag = (ws, Inr url)
         \<and> search (parseStandardURIString (fixURIStringScheme tmp)) = Some s
         \<and> search url =
             Some (if truthy (o_jwt bag) \<and> indexOf s (lit ''?jwt='') = - 1
                        \<and> indexOf s (lit ''&jwt='') = - 1
                   then (if s = [] \<or> s = lit ''?'' then lit ''?'' else s @ lit ''&'')
                        @ lit ''jwt='' @ or_empty (o_jwt bag)
                   else s)"
    by (rule working_record_search)
next
  show "\<exists>url. working_record url_join enc
               (no_properties\<lparr>o_room := Some (lit ''r''), o_jwt := Some (lit ''abc'')\<rparr>)
             = ([], Inr url)
          \<and> endsWith (pathname url) (lit ''/r'') \<and> search url = Some (lit ''?jwt=abc'')"
    by (simp add: str_ev class_ev parse_ev url_ev)
qed

lemma working_record_jwt_example:
  "base_string (\<lambda>r s. None) (no_properties\<lparr>o_url := Some (lit ''https://a/r?x=1''), o_jwt := Some (lit ''abc'')\<rparr>
       :: bool url_properties) = Inr (lit ''https://a/r?x=1'')
   \<and> (\<exists>ws url. working_record (\<lambda>r s. None) (\<lambda>v. None)
          (no_properties\<lparr>o_url := Some (lit ''https://a/r?x=1''), o_jwt := Some (lit ''abc'')\<rparr>
            :: bool url_properties) = (ws, Inr url)
        \<and> search url = Some (lit ''?x=1&jwt=abc''))"
proof -
  define bag :: "bool url_properties" where
    "bag = no_properties\<lparr>o_url := Some (lit ''https://a/r?x=1''), o_jwt := Some (lit ''abc'')\<rparr>"
  have b: "base_string (\<lambda>r s. None) bag = Inr (lit ''https://a/r?x=1'')"
    by (simp add: bag_def str_ev url_ev)
  have p: "search (parseStandardURIString (fixURIStringScheme (lit ''https://a/r?x=1'')))
             = Some (lit ''?x=1'')"
    by (simp add: str_ev class_ev parse_ev)
  have j: "o_jwt bag = Some (lit ''abc'')" by (simp add: bag_def no_properties_def)
  from working_record_jwt[of "\<lambda>r s. None" bag "lit ''https://a/r?x=1''" "\<lambda>v. None"] b
  obtain ws url s where w: "working_record (\<lambda>r s. None) (\<lambda>v. None) bag = (ws, Inr url)"
    and s: "search (parseStandardURIString (fixURIStringScheme (lit ''https://a/r?x=1''))) = Some s"
    and u: "search url =
             Some (if truthy (o_jwt bag) \<and> indexOf s (lit ''?jwt='') = - 1
                        \<and> indexOf s (lit ''&jwt='') = - 1
                   then (if s = [] \<or> s = lit ''?'' then lit ''?'' else s @ lit ''&'')
                        @ lit ''jwt='' @ or_empty (o_jwt bag)
                   else s)" by blast
  from p s have "s = lit ''?x=1''" by simp
  with u j have "search url = Some (lit ''?x=1&jwt=abc'')"
    by (simp add: str_ev)
  with w b show ?thesis unfolding bag_def by blast
qed

lemma working_record_cases:
  "(\<exists>e. base_string url_join bag = Inl e \<and> working_record url_join enc bag = ([], Inl e))
   \<or> (\<exists>tmp ws url. base_string url_join bag = Inr tmp
         \<and> working_record url_join enc bag = (ws, Inr url))"
proof (cases "base_string url_join bag")
  case (Inl e)
  then show ?thesis by (simp add: working_record_def)
next
  case (Inr tmp)
  with working_record_search[OF Inr, of enc] show ?thesis by blast
qed

lemma base_string_error: "base_string url_join bag = Inl e \<Longrightarrow> e = InvalidURL"
  by (auto simp: base_string_def split: if_splits option.splits)

lemma urlObjectToString_es_module:
  "snd (urlObjectToString es_module_this url_join enc bag) =
     (case base_string url_join bag of Inl e \<Rightarrow> Inl e | Inr tmp \<Rightarrow> Inl TypeError)"
  using working_record_cases[of url_join bag enc]
  by (auto simp: urlObjectToString_def toString_method_def standardURIToString_def
        es_module_this_def)

lemma urlObjectToString_commonjs:
  "snd (urlObjectToString commonjs_this url_join enc bag) =
     (case base_string url_join bag of Inl e \<Rightarrow> Inl e | Inr tmp \<Rightarrow> Inr (Some (lit ''/'')))"
  using working_record_cases[of url_join bag enc]
  by (auto simp: urlObjectToString_def toString_method_def standardURIToString_def
        commonjs_this_def truthy_def lit_def)

lemma objectToURLParamsArray_params:
  "fst (objectToURLParamsArray enc kvs) =
     map (\<lambda>(key, v). key @ lit ''='' @ or_empty (enc v)) (filter (\<lambda>(key, v). enc v \<noteq> None) kvs)"
  by (induction kvs) (auto simp: split_beta or_empty_def split: option.splits)

lemma objectToURLParamsArray_warned:
  "snd (objectToURLParamsArray enc kvs) =
     map (\<lambda>(key, v). Error_encoding key) (filter (\<lambda>(key, v). enc v = None) kvs)"
  by (induction kvs) (auto simp: split_beta split: option.splits)

text \<open>
  C5, evaluated at \<^verbatim>\<open>{serverURL:"https://meet.example.com/", room:"team-sync"}\<close>. The
  base string is the join of \<open>room\<close> against \<open>serverURL\<close>, as claimed, but the value
  returned is never the joined URL: whatever the join gives, the call throws (an
  \<open>InvalidURL\<close> of the join or the \<^verbatim>\<open>TypeError\<close> of \<open>toString\<close>) in an ECMAScript
  module, and throws or returns \<open>/\<close> under CommonJS.
\<close>

theorem urlObjectToString_serverURL_room:
  "base_string url_join
      (no_properties\<lparr>o_serverURL := Some (lit ''https://meet.example.com/''),
                     o_room := Some (lit ''team-sync'')\<rparr>)
     = (case url_join (lit ''team-sync'') (lit ''https://meet.example.com/'') of
          None \<Rightarrow> Inl InvalidURL | Some tmp \<Rightarrow> Inr tmp)
   \<and> snd (urlObjectToString es_module_this url_join enc
        (no_properties\<lparr>o_serverURL := Some (lit ''https://meet.example.com/''),
                       o_room := Some (lit ''team-sync'')\<rparr>))
      \<in> {Inl InvalidURL, Inl TypeError}
   \<and> snd (urlObjectToString commonjs_this url_join enc
        (no_properties\<lparr>o_serverURL := Some (lit ''https://meet.example.com/''),
                       o_room := Some (lit ''team-sync'')\<rparr>))
      \<in> {Inl InvalidURL, Inr (Some (lit ''/''))}"
proof -
  have b: "base_string url_join
      (no_properties\<lparr>o_serverURL := Some (lit ''https://meet.example.com/''),
                     o_room := Some (lit ''team-sync'')\<rparr>)
     = (case url_join (lit ''team-sync'') (lit ''https://meet.example.com/'') of
          None \<Rightarrow> Inl InvalidURL | Some tmp \<Rightarrow> Inr tmp)"
    by (simp add: base_string_def no_properties_def truthy_def or_empty_def lit_def)
  show ?thesis
    unfolding urlObjectToString_es_module urlObjectToString_commonjs b
    by (simp split: option.splits)
qed

text \<open>
  C9, evaluated at \<^verbatim>\<open>{room:"r", config:{a:<not encodable>, b:true}}\<close> in an ECMAScript
  module. The encoding failure of key \<open>a\<close> is recovered as claimed: \<open>a\<close> is skipped,
  one diagnostic is emitted and \<open>b\<close> is still processed, so the hash of the working
  record is \<open>#config.b=true\<close>. But the call then throws a \<^verbatim>\<open>TypeError\<close>, although no
  URL join takes place (\<open>serverURL\<close> is absent): the join is not the only failure
  that reaches the caller.
\<close>

theorem urlObjectToString_throws_without_join:
  "urlObjectToString es_module_this url_join (\<lambda>v. if v then Some (lit ''true'') else None)
      (no_properties\<lparr>o_room := Some (lit ''r''),
                     o_config := Some [(lit ''a'', False), (lit ''b'', True)]\<rparr>)
     = ([Error_encoding (lit ''a'')], Inl TypeError)
   \<and> (\<exists>url. working_record url_join (\<lambda>v. if v then Some (lit ''true'') else None)
          (no_properties\<lparr>o_room := Some (lit ''r''),
                     o_config := Some [(lit ''a'', False), (lit ''b'', True)]\<rparr>)
        = ([Error_encoding (lit ''a'')], Inr url)
       \<and> hash url = Some (lit ''#config.b=true''))"
  by (simp add: str_ev class_ev parse_ev url_ev)

text \<open>
  C8, evaluated at \<^verbatim>\<open>{room:"r", jwt:"abc"}\<close>. The query step does what the claim
  says on the working record (\<open>working_record_jwt\<close> above, for every bag): here its
  pathname ends with \<open>/r\<close> and its search is \<open>?jwt=abc\<close>. But the call does not produce
  them: \<open>toString\<close> does not read the working record, so \<open>urlObjectToString\<close> throws
  a \<^verbatim>\<open>TypeError\<close> in an ECMAScript module and returns \<open>/\<close> under CommonJS, a string
  whose pathname does not end with \<open>/r\<close> and that has no search.
\<close>

theorem urlObjectToString_room_jwt:
  "urlObjectToString es_module_this url_join enc
      (no_properties\<lparr>o_room := Some (lit ''r''), o_jwt := Some (lit ''abc'')\<rparr>)
     = ([], Inl TypeError)
   \<and> urlObjectToString commonjs_this url_join enc
      (no_properties\<lparr>o_room := Some (lit ''r''), o_jwt := Some (lit ''abc'')\<rparr>)
     = ([], Inr (Some (lit ''/'')))
   \<and> \<not> endsWith (lit ''/'') (lit ''/r'')
   \<and> search (parseStandardURIString (lit ''/'')) = Some []
   \<and> (\<exists>url. working_record url_join enc
               (no_properties\<lparr>o_room := Some (lit ''r''), o_jwt := Some (lit ''abc'')\<rparr>)
             = ([], Inr url)
          \<and> endsWith (pathname url) (lit ''/r'') \<and> search url = Some (lit ''?jwt=abc''))"
  by (simp add: str_ev class_ev parse_ev url_ev)

text \<open>
  C10, evaluated at \<^verbatim>\<open>{room:"r"}\<close>, where no URL join takes place. The pathname of the
  working record is \<open>/r\<close>, but \<open>toString\<close> does not read the working record: in an
  ECMAScript module the call throws a \<^verbatim>\<open>TypeError\<close> instead of returning a non-empty
  string, and under CommonJS it returns \<open>/\<close>.
\<close>

theorem urlObjectToString_room_only:
  "snd (urlObjectToString es_module_this url_join enc (no_properties\<lparr>o_room := Some (lit ''r'')\<rparr>))
     = Inl TypeError
   \<and> snd (urlObjectToString commonjs_this url_join enc (no_properties\<lparr>o_room := Some (lit ''r'')\<rparr>))
     = Inr (Some (lit ''/''))
   \<and> (\<exists>ws url. working_record url_join enc (no_properties\<lparr>o_room := Some (lit ''r'')\<rparr>)
                  = (ws, Inr url) \<and> pathname url = lit ''/r'')"
proof -
  have b: "base_string url_join (no_properties\<lparr>o_room := Some (lit ''r'')\<rparr>) = Inr (lit ''r'')"
    by (simp add: base_string_def no_properties_def truthy_def or_empty_def lit_def)
  have w: "\<exists>ws url. working_record url_join enc (no_properties\<lparr>o_room := Some (lit ''r'')\<rparr>)
                  = (ws, Inr url) \<and> pathname url = lit ''/r''"
    by (simp add: str_ev class_ev parse_ev url_ev)
  show ?thesis
    unfolding urlObjectToString_es_module urlObjectToString_commonjs b using w by simp
qed

end
